theory Spec2Isabelle
  imports Complex_Main "HOL-Library.Sublist" "HOL-Library.Log_Nat"
begin

section \<open>Incident analytics core of the dashboard (app.py)\<close>

text \<open>
  The development embeds the analytic parts of the Flask handlers of \<open>app.py\<close>:
  the fallback branch of \<open>generate_playbook\<close>, the two \<open>CASE\<close> expressions of
  \<open>check_compliance\<close>, and the pandas pipelines of \<open>anomalies_incidents\<close> and
  \<open>forecast_incidents\<close>. Rows fetched from the warehouse are the inputs of the
  models; the clock read by \<open>datetime.now()\<close> is an explicit argument.

  Python strings are modelled as \<open>string\<close> holding the UTF-8 bytes of the text.
  The keywords searched for are ASCII, so a byte-wise search finds exactly the
  occurrences a search by code point finds.
\<close>

subsection \<open>Strings\<close>

text \<open>\<open>str.lower()\<close> (and SQL \<open>LOWER\<close>) on the ASCII letters; every other byte is kept.\<close>

definition lower_char :: "char \<Rightarrow> char" where
  "lower_char c =
     (let n = (of_char c :: nat)
      in if 65 \<le> n \<and> n \<le> 90 then char_of (n + 32) else c)"

definition lower :: "string \<Rightarrow> string" where
  "lower s = map lower_char s"

text \<open>\<open>sub in s\<close>: \<open>sub\<close> occurs in \<open>s\<close> as a contiguous run.\<close>

fun contains :: "string \<Rightarrow> string \<Rightarrow> bool" where
  "contains [] sub = (sub = [])"
| "contains (c # cs) sub = (prefix sub (c # cs) \<or> contains cs sub)"

subsection \<open>Fallback playbook of \<open>generate_playbook\<close>\<close>

record playbook_step =
  step :: string
  owner :: string
  eta_hours :: int
  priority :: string
  tooling :: string

text \<open>The source writes the two hyphenated step names with U+2011 (non-breaking hyphen).\<close>

definition nb_hyphen :: string where
  "nb_hyphen = [CHR 0xE2, CHR 0x80, CHR 0x91]"

definition post_incident_step :: playbook_step where
  "post_incident_step =
     \<lparr>step = ''Post'' @ nb_hyphen @ ''incident review and lessons learned'',
      owner = ''IR Lead'', eta_hours = 2, priority = ''P3'', tooling = ''Docs/ITSM''\<rparr>"

definition base :: "playbook_step list" where
  "base =
    [\<lparr>step = ''Establish incident channel and assign roles'', owner = ''IR Lead'',
      eta_hours = 1, priority = ''P1'', tooling = ''Chat/ITSM''\<rparr>,
     \<lparr>step = ''Contain affected accounts/systems'', owner = ''SecOps'',
      eta_hours = 2, priority = ''P1'', tooling = ''EDR/IAM''\<rparr>,
     \<lparr>step = ''Collect evidence and snapshot logs'', owner = ''SecOps'',
      eta_hours = 2, priority = ''P2'', tooling = ''SIEM/EDR''\<rparr>,
     \<lparr>step = ''Root cause analysis and scope'', owner = ''IR Lead'',
      eta_hours = 4, priority = ''P2'', tooling = ''SIEM''\<rparr>,
     \<lparr>step = ''Remediate misconfigurations/rotate secrets'', owner = ''IAM Admin'',
      eta_hours = 3, priority = ''P2'', tooling = ''IAM/Secrets''\<rparr>,
     \<lparr>step = ''User comms and awareness'', owner = ''IT Comms'',
      eta_hours = 2, priority = ''P3'', tooling = ''Email/LMS''\<rparr>,
     post_incident_step]"

definition mfa_step :: playbook_step where
  "mfa_step =
     \<lparr>step = ''Force password reset & MFA re'' @ nb_hyphen @ ''verification'',
      owner = ''IAM Admin'', eta_hours = 1, priority = ''P1'', tooling = ''IAM''\<rparr>"

text \<open>
  \<open>base[1]['eta_hours'] = 1; base[1]['priority'] = 'P1'\<close>, guarded by
  \<open>isinstance(sev, str) and sev.lower() == 'critical'\<close>. A value that is not a
  string (a NULL column) is \<open>None\<close>.
\<close>

definition severity_override :: "string option \<Rightarrow> playbook_step list \<Rightarrow> playbook_step list" where
  "severity_override sev b =
     (case sev of
        Some s \<Rightarrow>
          if lower s = ''critical''
          then b[1 := (b ! 1)\<lparr>eta_hours := 1, priority := ''P1''\<rparr>]
          else b
      | None \<Rightarrow> b)"

text \<open>
  \<open>base.insert(1, ...)\<close>, guarded by
  \<open>isinstance(category, str) and 'authentication' in category\<close>.
\<close>

definition category_insert :: "string option \<Rightarrow> playbook_step list \<Rightarrow> playbook_step list" where
  "category_insert category b =
     (case category of
        Some c \<Rightarrow>
          if contains c ''authentication''
          then take 1 b @ [mfa_step] @ drop 1 b
          else b
      | None \<Rightarrow> b)"

text \<open>The fallback branch: override, insertion, then \<open>base[:7]\<close>.\<close>

definition generate_playbook :: "string option \<Rightarrow> string option \<Rightarrow> playbook_step list" where
  "generate_playbook sev category = take 7 (category_insert category (severity_override sev base))"

subsection \<open>The \<open>CASE\<close> expressions of \<open>check_compliance\<close>\<close>

text \<open>
  The classification is computed by the warehouse from the SQL text of the handler.
  A column that may be NULL is an \<open>option\<close>; a NULL \<open>tags\<close> array unnests to no
  element and is the empty list. SQL conditions are three-valued: \<open>None\<close> is NULL,
  and a \<open>WHEN\<close> branch is taken only when its condition is TRUE.
\<close>

record incident =
  description :: "string option"
  severity :: "string option"
  tags :: "string list"










subsection \<open>Dates and floats\<close>

text \<open>
  A calendar date is its day number (the proleptic Gregorian ordinal of
  \<open>date.toordinal()\<close>): adding \<open>timedelta(days=i)\<close> adds \<open>i\<close>, and
  \<open>(b - a).days\<close> is \<open>b - a\<close>. Formatting with \<open>strftime\<close> is injective and is
  left out.

  In the statistics of \<open>anomalies_incidents\<close> a float is an exact real number or
  NaN: rounding of the binary representation is not modelled there, the NaN that
  pandas returns for an undefined statistic is. The counts are taken to be held
  in a numpy column (\<open>int64\<close> or \<open>float64\<close>), on which the statistics of pandas
  return floats.

  In \<open>forecast_incidents\<close> a float is the real number that an IEEE binary64
  holds, and every operation that can round is followed by \<open>to_double\<close>. Whole
  numbers up to \<open>2\<^sup>5\<^sup>3\<close> are binary64 numbers, and their sums, differences and
  products are exact while they stay in that range, as those of the time indices
  and of the daily counts do; they are written without rounding. The overflow to
  infinity beyond \<open>2\<^sup>1\<^sup>0\<^sup>2\<^sup>4\<close> is not modelled.
\<close>

type_synonym date = int

datatype pyfloat = Num real | NaN

text \<open>The exceptions that the modelled code can raise.\<close>

datatype error = Duplicate_Labels | Index_Error | Zero_Division

text \<open>Rounding to the nearest whole number, a tie going to the even one.\<close>

definition round_half_even :: "real \<Rightarrow> int" where
  "round_half_even y =
     (let f = \<lfloor>y\<rfloor>; r = y - of_int f
      in if r < 1 / 2 then f else if 1 / 2 < r then f + 1
         else if even f then f else f + 1)"

definition pow2 :: "int \<Rightarrow> real" where
  "pow2 k = (if 0 \<le> k then 2 ^ nat k else 1 / 2 ^ nat (- k))"

text \<open>
  The binary64 number nearest to a real number, a tie going to the even
  significand. \<open>m\<close> is the magnitude in units of \<open>2\<^sup>-\<^sup>1\<^sup>0\<^sup>7\<^sup>4\<close>, the least
  positive binary64 number, so its bit length gives the binary exponent \<open>e\<close>; the
  exponent of a subnormal number is \<open>-1022\<close>. The significand has 53 bits, so the
  numbers of that exponent are the multiples of \<open>2\<^sup>e\<^sup>-\<^sup>5\<^sup>2\<close>.
\<close>

definition to_double :: "real \<Rightarrow> real" where
  "to_double x =
     (let m = \<lfloor>\<bar>x\<bar> * 2 ^ 1074\<rfloor>;
          e = max (bitlen m - 1075) (- 1022);
          ulp = pow2 (e - 52)
      in of_int (round_half_even (x / ulp)) * ulp)"

text \<open>Sum, difference and product of two floats.\<close>

definition fadd :: "real \<Rightarrow> real \<Rightarrow> real" where
  "fadd a b = to_double (a + b)"

definition fsub :: "real \<Rightarrow> real \<Rightarrow> real" where
  "fsub a b = to_double (a - b)"

definition fmul :: "real \<Rightarrow> real \<Rightarrow> real" where
  "fmul a b = to_double (a * b)"

text \<open>Division of two Python floats raises \<open>ZeroDivisionError\<close> on a zero divisor.\<close>

definition py_div :: "real \<Rightarrow> real \<Rightarrow> error + real" where
  "py_div a b = (if b = 0 then Inl Zero_Division else Inr (to_double (a / b)))"

text \<open>\<open>float(x) or 1.0\<close>: only \<open>0.0\<close> is falsy, NaN is truthy.\<close>

definition or_one :: "pyfloat \<Rightarrow> pyfloat" where
  "or_one x = (if x = Num 0 then Num 1 else x)"

text \<open>
  \<open>(s - mean) / std\<close> at one entry of the series, a division by pandas that does
  not raise. NaN propagates. The divisor is never \<open>0\<close> where this is called, since
  it has passed \<open>or_one\<close>.
\<close>

fun zscore_of :: "pyfloat \<Rightarrow> pyfloat \<Rightarrow> int \<Rightarrow> pyfloat" where
  "zscore_of (Num m) (Num sd) c = (if sd = 0 then NaN else Num ((real_of_int c - m) / sd))"
| "zscore_of NaN sd c = NaN"
| "zscore_of m NaN c = NaN"

text \<open>\<open>abs(float(z)) >= k\<close>: every comparison with NaN is false.\<close>

fun abs_ge :: "pyfloat \<Rightarrow> real \<Rightarrow> bool" where
  "abs_ge (Num z) k = (k \<le> \<bar>z\<bar>)"
| "abs_ge NaN k = False"

text \<open>
  \<open>round(x, 2)\<close> of Python 3 on a float: the exact value of \<open>x\<close> is rounded to the
  nearest multiple of \<open>0.01\<close>, a tie going to the even neighbour, and the result
  is the float nearest to that decimal number.
\<close>

definition py_round2 :: "real \<Rightarrow> real" where
  "py_round2 x = to_double (of_int (round_half_even (x * 100)) / 100)"

subsection \<open>\<open>anomalies_incidents\<close>: gap filling and z-scores\<close>

text \<open>\<open>pd.date_range(lo, hi, freq='D')\<close>.\<close>

definition date_range :: "date \<Rightarrow> date \<Rightarrow> date list" where
  "date_range lo hi = [lo..hi]"

text \<open>
  Lines 573 to 575: the index runs over every day from the least to the greatest
  date of the rows, \<open>reindex\<close> looks each day up and \<open>fillna(0)\<close> fills the days that
  have no row. Called on rows that are not empty and have distinct dates only.
\<close>

definition fill :: "(date \<times> int) list \<Rightarrow> (date \<times> int) list" where
  "fill rows =
     (let full_idx = date_range (Min (fst ` set rows)) (Max (fst ` set rows))
      in map (\<lambda>d. (d, case map_of rows d of Some c \<Rightarrow> c | None \<Rightarrow> 0)) full_idx)"

text \<open>\<open>Series.mean()\<close>; NaN on a series without values.\<close>

definition series_mean :: "int list \<Rightarrow> pyfloat" where
  "series_mean cs =
     (if cs = [] then NaN else Num (real_of_int (sum_list cs) / real (length cs)))"

text \<open>
  \<open>Series.std()\<close> with the default \<open>ddof=1\<close> of pandas: the squared deviations
  from the mean are divided by \<open>N - 1\<close>, and the result is NaN when \<open>N \<le> 1\<close>.
\<close>

definition series_std :: "int list \<Rightarrow> pyfloat" where
  "series_std cs =
     (if length cs \<le> 1 then NaN
      else let avg = real_of_int (sum_list cs) / real (length cs)
           in Num (sqrt ((\<Sum>c\<leftarrow>cs. (real_of_int c - avg)\<^sup>2) / real (length cs - 1))))"

text \<open>
  The standard deviation as the specification words it: the squared deviations are
  divided by \<open>N\<close>.
\<close>

definition population_std :: "int list \<Rightarrow> real" where
  "population_std cs =
     sqrt ((\<Sum>c\<leftarrow>cs. (real_of_int c - real_of_int (sum_list cs) / real (length cs))\<^sup>2)
           / real (length cs))"

record detection =
  mean :: pyfloat
  std :: pyfloat
  anomalies :: "(date \<times> int \<times> pyfloat) list"

text \<open>Lines 576 to 582, on the filled series.\<close>

definition detect :: "(date \<times> int) list \<Rightarrow> detection" where
  "detect s =
     (let m = series_mean (map snd s);
          sd = or_one (series_std (map snd s))
      in \<lparr>mean = m, std = sd,
          anomalies = map (\<lambda>(d, c). (d, c, zscore_of m sd c))
                          (filter (\<lambda>(d, c). abs_ge (zscore_of m sd c) 2) s)\<rparr>)"

text \<open>
  The handler. No row gives the short answer without statistics. \<open>reindex\<close> raises
  \<open>ValueError\<close> on duplicate labels, which the handler turns into an error answer.
\<close>

datatype anomalies_response =
  No_Data
| Report "(date \<times> int) list" detection

definition anomalies_incidents :: "(date \<times> int) list \<Rightarrow> error + anomalies_response" where
  "anomalies_incidents rows =
     (if rows = [] then Inr No_Data
      else if distinct (map fst rows) then Inr (Report (fill rows) (detect (fill rows)))
      else Inl Duplicate_Labels)"

subsection \<open>\<open>forecast_incidents\<close>: least-squares trend\<close>

text \<open>
  Lines 626 to 640: \<open>y\<close> holds the counts in chronological order, \<open>t\<close> is
  \<open>0, 1, ..., N - 1\<close>. \<open>y.iloc[-1]\<close> raises on a series without values, and the
  three divisions are divisions of Python floats. The sums and \<open>denom\<close> are whole
  numbers; the quotients, \<open>slope * sum_t\<close> and its difference from \<open>sum_y\<close> round.
  The result is slope, intercept and the name of the method.
\<close>

definition ols_fit :: "real list \<Rightarrow> error + real \<times> real \<times> string" where
  "ols_fit y =
     (if y = [] then Inl Index_Error
      else
        let y_last = last y;
            n = real (length y);
            t = map real [0..<length y];
            sum_t = sum_list t;
            sum_y = sum_list y;
            sum_tt = (\<Sum>x\<leftarrow>t. x * x);
            sum_ty = (\<Sum>(a, b)\<leftarrow>zip t y. a * b);
            denom = n * sum_tt - sum_t * sum_t
        in if denom = 0
           then (if n \<noteq> 0
                 then case py_div sum_y n of
                        Inl e \<Rightarrow> Inl e
                      | Inr intercept \<Rightarrow> Inr (0, intercept, ''naive_last'')
                 else Inr (0, y_last, ''naive_last''))
           else case py_div (n * sum_ty - sum_t * sum_y) denom of
                  Inl e \<Rightarrow> Inl e
                | Inr slope \<Rightarrow>
                    (case py_div (fsub sum_y (fmul slope sum_t)) n of
                       Inl e \<Rightarrow> Inl e
                     | Inr intercept \<Rightarrow> Inr (slope, intercept, ''linear_trend'')))"

text \<open>The answer; the field \<open>fc_method\<close> is the key \<open>method\<close> of the source.\<close>

record forecast_response =
  history :: "(date \<times> int) list"
  forecast :: "(date \<times> real) list"
  fc_method :: string

text \<open>
  The handler, from the parsed \<open>days\<close> parameter on. \<open>now\<close> is the day of
  \<open>datetime.now()\<close>. The rows are sorted by date; the query groups by date, so the
  dates are distinct and every sorting algorithm gives the same order. An exception
  is an \<open>Inl\<close>, which the handler turns into an error answer.
\<close>

definition forecast_incidents ::
  "date \<Rightarrow> int \<Rightarrow> (date \<times> int) list \<Rightarrow> error + forecast_response" where
  "forecast_incidents now days rows =
     (let horizon_days = max 1 (min days 60)
      in if rows = []
         then Inr \<lparr>history = [],
                   forecast = map (\<lambda>i. (now + (int i + 1), 5)) [0..<nat horizon_days],
                   fc_method = ''naive''\<rparr>
         else let df = sort_key fst rows
              in case ols_fit (map (\<lambda>r. real_of_int (snd r)) df) of
                   Inl e \<Rightarrow> Inl e
                 | Inr (slope, intercept, m) \<Rightarrow>
                     let start_t = int (length df) - 1
                     in Inr \<lparr>history = df,
                             forecast =
                               map (\<lambda>i. (fst (last df) + i,
                                         py_round2
                                           (max 0 (fadd (fmul slope (real_of_int (start_t + i)))
                                                        intercept))))
                                   [1..horizon_days],
                             fc_method = m\<rparr>)"

text \<open>
  The sums of the closed form as the specification words them, over the time
  indices \<open>0, ..., N - 1\<close>, and the denominator \<open>N * \<Sigma>t\<^sup>2 - (\<Sigma>t)\<^sup>2\<close>.
\<close>

definition sigma_t :: "nat \<Rightarrow> real" where
  "sigma_t n = (\<Sum>t<n. real t)"

definition sigma_tt :: "nat \<Rightarrow> real" where
  "sigma_tt n = (\<Sum>t<n. (real t)\<^sup>2)"

definition sigma_y :: "real list \<Rightarrow> real" where
  "sigma_y y = (\<Sum>t<length y. y ! t)"

definition sigma_ty :: "real list \<Rightarrow> real" where
  "sigma_ty y = (\<Sum>t<length y. real t * y ! t)"

definition ols_denom :: "nat \<Rightarrow> real" where
  "ols_denom n = real n * sigma_tt n - (sigma_t n)\<^sup>2"

text \<open>
  An input used as an example below: fifteen consecutive days with two incidents
  on the first day, three on the last and one on every day between.
\<close>

definition fifteen_days :: "(date \<times> int) list" where
  "fifteen_days = [(0, 2), (1, 1), (2, 1), (3, 1), (4, 1), (5, 1), (6, 1), (7, 1),
                    (8, 1), (9, 1), (10, 1), (11, 1), (12, 1), (13, 1), (14, 3)]"

section \<open>Properties\<close>

subsection \<open>Playbook\<close>

lemma length_base: "length base = 7"
  by (simp add: base_def)

lemma length_severity_override: "length (severity_override sev b) = length b"
  by (simp add: severity_override_def split: option.split)

lemma length_category_insert:
  "1 \<le> length b \<Longrightarrow> length b \<le> length (category_insert category b)"
  by (auto simp add: category_insert_def split: option.split)


lemma override_base:
  "severity_override sev base = base \<or>
   severity_override sev base = base[1 := (base ! 1)\<lparr>eta_hours := 1, priority := ''P1''\<rparr>]"
  by (simp add: severity_override_def split: option.split)

lemma override_shape:
  "\<exists>e. severity_override sev base =
     [base ! 0, (base ! 1)\<lparr>eta_hours := e\<rparr>, base ! 2, base ! 3, base ! 4, base ! 5,
      post_incident_step]"
  using override_base [of sev] by (auto simp add: base_def)

lemma mfa_not_in_override: "mfa_step \<notin> set (severity_override sev base)"
  using override_base [of sev]
  by (auto simp add: base_def mfa_step_def post_incident_step_def nb_hyphen_def)

lemma insert_shape:
  assumes "contains c ''authentication''"
  shows "\<exists>e. category_insert (Some c) (severity_override sev base) =
     [base ! 0, mfa_step, (base ! 1)\<lparr>eta_hours := e\<rparr>, base ! 2, base ! 3, base ! 4, base ! 5,
      post_incident_step]"
proof -
  obtain e where "severity_override sev base =
     [base ! 0, (base ! 1)\<lparr>eta_hours := e\<rparr>, base ! 2, base ! 3, base ! 4, base ! 5,
      post_incident_step]"
    using override_shape by blast
  with assms show ?thesis by (auto simp add: category_insert_def)
qed

text \<open>
  Claim C10: for every severity and category the fallback playbook has exactly seven
  steps. The template has seven steps before the insertion; when the category
  contains \<open>authentication\<close> the insertion makes eight, the eighth being the
  post-incident review, and the cut to seven steps removes exactly that one.
\<close>

theorem playbook_seven_steps:
  "length (generate_playbook sev category) = 7 \<and>
   length (severity_override sev base) = 7 \<and>
   (\<forall>c. category = Some c \<and> contains c ''authentication'' \<longrightarrow>
      length (category_insert category (severity_override sev base)) = 8 \<and>
      last (category_insert category (severity_override sev base)) = post_incident_step \<and>
      generate_playbook sev category = butlast (category_insert category (severity_override sev base)) \<and>
      post_incident_step \<notin> set (generate_playbook sev category))"
proof -
  have len: "length (severity_override sev base) = 7"
    by (simp add: length_severity_override length_base)
  have "7 \<le> length (category_insert category (severity_override sev base))"
    using length_category_insert [of "severity_override sev base" category] len by simp
  then have seven: "length (generate_playbook sev category) = 7"
    by (simp add: generate_playbook_def)
  have ins: "length (category_insert category (severity_override sev base)) = 8 \<and>
      last (category_insert category (severity_override sev base)) = post_incident_step \<and>
      generate_playbook sev category = butlast (category_insert category (severity_override sev base)) \<and>
      post_incident_step \<notin> set (generate_playbook sev category)"
    if cat: "category = Some c" and con: "contains c ''authentication''" for c
  proof -
    obtain e where shape: "category_insert category (severity_override sev base) =
       [base ! 0, mfa_step, (base ! 1)\<lparr>eta_hours := e\<rparr>, base ! 2, base ! 3, base ! 4, base ! 5,
        post_incident_step]"
      using insert_shape [OF con, of sev] cat by blast
    show ?thesis
      unfolding generate_playbook_def shape
      by (simp add: base_def post_incident_step_def mfa_step_def nb_hyphen_def)
  qed
  from len seven ins show ?thesis by blast
qed

text \<open>Witness for C10: a critical incident of category \<open>authentication_bypass\<close>.\<close>

theorem playbook_seven_steps_witness:
  "contains ''authentication_bypass'' ''authentication'' \<and>
   length (generate_playbook (Some ''critical'') (Some ''authentication_bypass'')) = 7 \<and>
   post_incident_step \<notin> set (generate_playbook (Some ''critical'') (Some ''authentication_bypass''))"
proof -
  have "contains ''authentication_bypass'' ''authentication''"
    by simp
  with playbook_seven_steps [of "Some ''critical''" "Some ''authentication_bypass''"]
  show ?thesis by blast
qed

text \<open>
  Claim C5, as the code has it: the search for \<open>authentication\<close> in the category
  is by exact letters. When the category contains it, the step for the password
  reset (owner IAM Admin, one hour, P1, tooling IAM) is the second step of the
  playbook and the containment step comes right after it; when it does not, no
  step is inserted.
\<close>

theorem authentication_step_inserted:
  "(contains c ''authentication'' \<longrightarrow>
      generate_playbook sev (Some c) ! 1 = mfa_step \<and>
      step (generate_playbook sev (Some c) ! 2) = ''Contain affected accounts/systems'' \<and>
      step mfa_step = ''Force password reset & MFA re'' @ nb_hyphen @ ''verification'' \<and>
      owner mfa_step = ''IAM Admin'' \<and> eta_hours mfa_step = 1 \<and>
      priority mfa_step = ''P1'' \<and> tooling mfa_step = ''IAM'') \<and>
   (\<not> contains c ''authentication'' \<longrightarrow>
      generate_playbook sev (Some c) = severity_override sev base \<and>
      mfa_step \<notin> set (generate_playbook sev (Some c)))"
proof -
  have yes: "generate_playbook sev (Some c) ! 1 = mfa_step \<and>
      step (generate_playbook sev (Some c) ! 2) = ''Contain affected accounts/systems''"
    if con: "contains c ''authentication''"
  proof -
    obtain e where shape: "category_insert (Some c) (severity_override sev base) =
       [base ! 0, mfa_step, (base ! 1)\<lparr>eta_hours := e\<rparr>, base ! 2, base ! 3, base ! 4, base ! 5,
        post_incident_step]"
      using insert_shape [OF con, of sev] by blast
    show ?thesis
      unfolding generate_playbook_def shape by (simp add: base_def)
  qed
  have no: "generate_playbook sev (Some c) = severity_override sev base \<and>
      mfa_step \<notin> set (generate_playbook sev (Some c))"
    if "\<not> contains c ''authentication''"
  proof -
    from that have "generate_playbook sev (Some c) = severity_override sev base"
      by (simp add: generate_playbook_def category_insert_def length_severity_override length_base)
    then show ?thesis by (simp add: mfa_not_in_override)
  qed
  have fields: "step mfa_step = ''Force password reset & MFA re'' @ nb_hyphen @ ''verification'' \<and>
      owner mfa_step = ''IAM Admin'' \<and> eta_hours mfa_step = 1 \<and>
      priority mfa_step = ''P1'' \<and> tooling mfa_step = ''IAM''"
    by (simp add: mfa_step_def)
  from yes no fields show ?thesis by blast
qed

text \<open>Witness for C5: one category with the keyword and one without.\<close>

theorem authentication_step_inserted_witness:
  "contains ''authentication_bypass'' ''authentication'' \<and>
   generate_playbook (Some ''critical'') (Some ''authentication_bypass'') ! 1 = mfa_step \<and>
   \<not> contains ''Authentication'' ''authentication'' \<and>
   mfa_step \<notin> set (generate_playbook (Some ''critical'') (Some ''Authentication''))"
proof -
  have yes: "contains ''authentication_bypass'' ''authentication''"
    by simp
  have no: "\<not> contains ''Authentication'' ''authentication''"
    by simp
  from yes no authentication_step_inserted [of "''authentication_bypass''" "Some ''critical''"]
    authentication_step_inserted [of "''Authentication''" "Some ''critical''"]
  show ?thesis by blast
qed

text \<open>
  Claim C5 as stated fails: \<open>Authentication\<close> contains the keyword when letter case
  is ignored, and the playbook for it has no password-reset step.
\<close>

theorem authentication_case_counterexample:
  "contains (lower ''Authentication'') ''authentication'' \<and>
   generate_playbook (Some ''high'') (Some ''Authentication'') ! 1 \<noteq> mfa_step \<and>
   mfa_step \<notin> set (generate_playbook (Some ''high'') (Some ''Authentication''))"
proof -
  have a: "contains (lower ''Authentication'') ''authentication''"
    by code_simp
  have b: "\<not> contains ''Authentication'' ''authentication''"
    by simp
  have c: "lower ''high'' \<noteq> ''critical''"
    by code_simp
  from b c have "generate_playbook (Some ''high'') (Some ''Authentication'') = base"
    by (simp add: generate_playbook_def category_insert_def severity_override_def length_base)
  then show ?thesis using a
    by (simp add: base_def mfa_step_def post_incident_step_def nb_hyphen_def)
qed


subsection \<open>Compliance\<close>




subsection \<open>Gap filling\<close>

lemma map_fst_fill: "map fst (fill rows) = [Min (fst ` set rows)..Max (fst ` set rows)]"
  by (simp add: fill_def date_range_def comp_def)

lemma fill_keeps_rows:
  assumes "distinct (map fst rows)" and "(d, c) \<in> set rows"
  shows "(d, c) \<in> set (fill rows)"
proof -
  have fin: "finite (fst ` set rows)" by simp
  have mem: "d \<in> fst ` set rows" using assms(2) by force
  have lo: "Min (fst ` set rows) \<le> d" using fin mem by (rule Min_le)
  have hi: "d \<le> Max (fst ` set rows)" using fin mem by (rule Max_ge)
  have "map_of rows d = Some c" using assms by simp
  with lo hi show ?thesis
    by (force simp add: fill_def date_range_def)
qed

lemma fill_zero_elsewhere:
  assumes "(d, c) \<in> set (fill rows)" and "d \<notin> fst ` set rows"
  shows "c = 0"
proof -
  from assms(2) have "map_of rows d = None"
    by (simp add: map_of_eq_None_iff)
  with assms(1) show ?thesis
    by (auto simp add: fill_def date_range_def)
qed

text \<open>
  Claim C2: for rows that are not empty and have one count per date, the handler
  answers with the filled series, which has \<open>(max_date - min_date).days + 1\<close> entries, its dates are exactly the
  days from the least to the greatest date in ascending order, every row is kept
  with its count, and every day without a row has count 0.
\<close>

theorem fill_dense:
  "rows \<noteq> [] \<and> distinct (map fst rows) \<longrightarrow>
     anomalies_incidents rows = Inr (Report (fill rows) (detect (fill rows))) \<and>
     length (fill rows) = nat (Max (fst ` set rows) - Min (fst ` set rows) + 1) \<and>
     1 \<le> length (fill rows) \<and>
     map fst (fill rows) = [Min (fst ` set rows)..Max (fst ` set rows)] \<and>
     sorted (map fst (fill rows)) \<and> distinct (map fst (fill rows)) \<and>
     (\<forall>d c. (d, c) \<in> set rows \<longrightarrow> (d, c) \<in> set (fill rows)) \<and>
     (\<forall>d c. (d, c) \<in> set (fill rows) \<and> d \<notin> fst ` set rows \<longrightarrow> c = 0)"
proof (intro impI, elim conjE)
  assume ne: "rows \<noteq> []" and dist: "distinct (map fst rows)"
  have "Min (fst ` set rows) \<le> Max (fst ` set rows)"
    using ne by (simp add: Min_le_iff)
  then have len: "length (fill rows) = nat (Max (fst ` set rows) - Min (fst ` set rows) + 1)"
    and pos: "1 \<le> length (fill rows)"
    by (simp_all add: fill_def date_range_def)
  have sd: "sorted (map fst (fill rows))" "distinct (map fst (fill rows))"
    by (simp_all add: map_fst_fill)
  have run: "anomalies_incidents rows = Inr (Report (fill rows) (detect (fill rows)))"
    using ne dist by (simp add: anomalies_incidents_def)
  from run len pos sd map_fst_fill [of rows] fill_keeps_rows [OF dist] fill_zero_elsewhere [of _ _ rows]
  show "anomalies_incidents rows = Inr (Report (fill rows) (detect (fill rows))) \<and>
     length (fill rows) = nat (Max (fst ` set rows) - Min (fst ` set rows) + 1) \<and>
     1 \<le> length (fill rows) \<and>
     map fst (fill rows) = [Min (fst ` set rows)..Max (fst ` set rows)] \<and>
     sorted (map fst (fill rows)) \<and> distinct (map fst (fill rows)) \<and>
     (\<forall>d c. (d, c) \<in> set rows \<longrightarrow> (d, c) \<in> set (fill rows)) \<and>
     (\<forall>d c. (d, c) \<in> set (fill rows) \<and> d \<notin> fst ` set rows \<longrightarrow> c = 0)"
    by blast
qed

text \<open>Witness for C2: three rows out of order, with two gaps.\<close>

theorem fill_dense_witness:
  "[(5, 2), (3, 1), (8, 4::int)] \<noteq> [] \<and> distinct (map fst [(5::int, 2), (3, 1), (8, 4::int)]) \<and>
   length (fill [(5, 2), (3, 1), (8, 4)]) = 6 \<and>
   (5, 2) \<in> set (fill [(5, 2), (3, 1), (8, 4)])"
  using fill_dense [of "[(5, 2), (3, 1), (8, 4)]"]
  by simp

subsection \<open>Anomaly detection\<close>

text \<open>The divisor of the z-scores is never 0, whatever the deviation computed is.\<close>

lemma or_one_nonzero: "or_one x \<noteq> Num 0"
  by (simp add: or_one_def)

lemma detect_two_or_more:
  assumes n: "2 \<le> length s"
    and avg: "avg = real_of_int (sum_list (map snd s)) / real (length s)"
    and sd: "sd = sqrt ((\<Sum>c\<leftarrow>map snd s. (real_of_int c - avg)\<^sup>2) / real (length s - 1))"
    and eff: "eff = (if sd = 0 then 1 else sd)"
  shows "series_std (map snd s) = Num sd"
    and "detect s =
      \<lparr>mean = Num avg, std = Num eff,
       anomalies = map (\<lambda>(d, c). (d, c, Num ((real_of_int c - avg) / eff)))
                       (filter (\<lambda>(d, c). 2 \<le> \<bar>(real_of_int c - avg) / eff\<bar>) s)\<rparr>"
proof -
  from n have ne: "s \<noteq> []" by auto
  have m: "series_mean (map snd s) = Num avg"
    using ne avg by (simp add: series_mean_def)
  show st: "series_std (map snd s) = Num sd"
    using n avg sd by (simp add: series_std_def Let_def)
  have e: "or_one (Num sd) = Num eff"
    using eff by (simp add: or_one_def)
  have nz: "eff \<noteq> 0" using eff by simp
  have z: "zscore_of (Num avg) (Num eff) c = Num ((real_of_int c - avg) / eff)" for c
    using nz by simp
  show "detect s =
      \<lparr>mean = Num avg, std = Num eff,
       anomalies = map (\<lambda>(d, c). (d, c, Num ((real_of_int c - avg) / eff)))
                       (filter (\<lambda>(d, c). 2 \<le> \<bar>(real_of_int c - avg) / eff\<bar>) s)\<rparr>"
    by (simp add: detect_def Let_def m st e nz)
qed

lemma forget_zscore:
  "map (\<lambda>(d, c, z). (d, c)) (map (\<lambda>(d, c). (d, c, f c)) xs) = xs"
  by (induction xs) auto

lemma dates_of_anomalies:
  "map fst (map (\<lambda>(d, c). (d, c, f c)) xs) = map fst xs"
  by (induction xs) auto

text \<open>
  Claim C1, as the code has it: on a series of at least two days the mean is the
  arithmetic mean of the counts and the standard deviation is the sample standard
  deviation (divisor \<open>N - 1\<close>); the divisor of the z-scores is 1 when that deviation
  is 0 and the deviation itself otherwise; a day is among the anomalies exactly
  when the absolute value of its z-score is at least 2, with that z-score, and the
  anomalies keep the order of the series.
\<close>

theorem detect_sample_statistics:
  "2 \<le> length s \<and>
   avg = real_of_int (sum_list (map snd s)) / real (length s) \<and>
   sd = sqrt ((\<Sum>c\<leftarrow>map snd s. (real_of_int c - avg)\<^sup>2) / real (length s - 1)) \<and>
   eff = (if sd = 0 then 1 else sd) \<longrightarrow>
     mean (detect s) = Num avg \<and>
     series_std (map snd s) = Num sd \<and>
     std (detect s) = Num eff \<and>
     (\<forall>d c z. (d, c, z) \<in> set (anomalies (detect s)) \<longleftrightarrow>
        (d, c) \<in> set s \<and> z = Num ((real_of_int c - avg) / eff) \<and>
        2 \<le> \<bar>(real_of_int c - avg) / eff\<bar>) \<and>
     subseq (map (\<lambda>(d, c, z). (d, c)) (anomalies (detect s))) s \<and>
     (sorted (map fst s) \<longrightarrow> sorted (map fst (anomalies (detect s))))"
proof (intro impI, elim conjE)
  assume n: "2 \<le> length s"
    and avg: "avg = real_of_int (sum_list (map snd s)) / real (length s)"
    and sd: "sd = sqrt ((\<Sum>c\<leftarrow>map snd s. (real_of_int c - avg)\<^sup>2) / real (length s - 1))"
    and eff: "eff = (if sd = 0 then 1 else sd)"
  let ?P = "\<lambda>(d, c). 2 \<le> \<bar>(real_of_int c - avg) / eff\<bar>"
  let ?z = "\<lambda>c. Num ((real_of_int c - avg) / eff)"
  have st: "series_std (map snd s) = Num sd"
    using n avg sd eff by (rule detect_two_or_more(1))
  have det: "detect s = \<lparr>mean = Num avg, std = Num eff,
       anomalies = map (\<lambda>(d, c). (d, c, ?z c)) (filter ?P s)\<rparr>"
    using n avg sd eff by (rule detect_two_or_more(2))
  have an: "anomalies (detect s) = map (\<lambda>(d, c). (d, c, ?z c)) (filter ?P s)"
    by (simp add: det)
  have mem: "(d, c, z) \<in> set (anomalies (detect s)) \<longleftrightarrow>
        (d, c) \<in> set s \<and> z = ?z c \<and> 2 \<le> \<bar>(real_of_int c - avg) / eff\<bar>" for d c z
    unfolding an by auto
  have sub: "subseq (map (\<lambda>(d, c, z). (d, c)) (anomalies (detect s))) s"
    unfolding an forget_zscore by simp
  have srt: "sorted (map fst (anomalies (detect s)))" if "sorted (map fst s)"
    unfolding an dates_of_anomalies using that by (rule sorted_filter)
  from st det mem sub srt
  show "mean (detect s) = Num avg \<and>
     series_std (map snd s) = Num sd \<and>
     std (detect s) = Num eff \<and>
     (\<forall>d c z. (d, c, z) \<in> set (anomalies (detect s)) \<longleftrightarrow>
        (d, c) \<in> set s \<and> z = Num ((real_of_int c - avg) / eff) \<and>
        2 \<le> \<bar>(real_of_int c - avg) / eff\<bar>) \<and>
     subseq (map (\<lambda>(d, c, z). (d, c)) (anomalies (detect s))) s \<and>
     (sorted (map fst s) \<longrightarrow> sorted (map fst (anomalies (detect s))))"
    by simp
qed

text \<open>Witness for C1: eight days with three incidents, then one with nine.\<close>

theorem detect_sample_statistics_witness:
  "2 \<le> length [(0::int, 3::int), (1, 3), (2, 3), (3, 3), (4, 3), (5, 3), (6, 3), (7, 3), (8, 9)] \<and>
   std (detect [(0, 3), (1, 3), (2, 3), (3, 3), (4, 3), (5, 3), (6, 3), (7, 3), (8, 9)]) = Num 2 \<and>
   (8, 9, Num (8 / 3)) \<in>
     set (anomalies (detect [(0, 3), (1, 3), (2, 3), (3, 3), (4, 3), (5, 3), (6, 3), (7, 3), (8, 9)]))"
proof -
  let ?s = "[(0::int, 3::int), (1, 3), (2, 3), (3, 3), (4, 3), (5, 3), (6, 3), (7, 3), (8, 9)]"
  have n: "2 \<le> length ?s" by simp
  have avg: "(11 / 3 :: real) = real_of_int (sum_list (map snd ?s)) / real (length ?s)"
    by simp
  have sd: "(2::real) = sqrt ((\<Sum>c\<leftarrow>map snd ?s. (real_of_int c - 11 / 3)\<^sup>2) / real (length ?s - 1))"
    by (simp add: power2_eq_square)
  have eff: "(2::real) = (if (2::real) = 0 then 1 else 2)" by simp
  from n avg sd eff detect_sample_statistics [of ?s "11 / 3" 2 2]
  have "std (detect ?s) = Num 2"
    and "(8, 9, Num ((real_of_int 9 - 11 / 3) / 2)) \<in> set (anomalies (detect ?s)) \<longleftrightarrow>
        (8, 9) \<in> set ?s \<and> Num ((real_of_int 9 - 11 / 3) / 2) = Num ((real_of_int 9 - 11 / 3) / 2) \<and>
        2 \<le> \<bar>(real_of_int 9 - 11 / 3) / 2\<bar>"
    by blast+
  then show ?thesis using n by simp
qed

text \<open>
  Claim C1 as stated fails: on the counts 1, 1, 1, 1, 6 the population standard
  deviation is 2 and the last day lies two such deviations above the mean, but the
  deviation computed is \<open>sqrt 5\<close> and no day is reported.
\<close>

theorem population_std_counterexample:
  "population_std [1, 1, 1, 1, 6] = 2 \<and>
   series_std [1, 1, 1, 1, 6] = Num (sqrt 5) \<and>
   sqrt 5 \<noteq> 2 \<and>
   2 \<le> \<bar>(real_of_int 6 - 2) / population_std [1, 1, 1, 1, 6]\<bar> \<and>
   anomalies (detect [(0, 1), (1, 1), (2, 1), (3, 1), (4, 6)]) = []"
proof -
  have pop: "population_std [1, 1, 1, 1, 6] = 2"
    by (simp add: population_std_def power2_eq_square)
  have smp: "series_std [1, 1, 1, 1, 6] = Num (sqrt 5)"
    by (simp add: series_std_def Let_def power2_eq_square)
  have "(2::real) < sqrt 5"
    by (rule real_less_rsqrt) simp
  then have ne: "sqrt 5 \<noteq> 2" and pos: "0 < sqrt 5"
    and small: "4 / sqrt 5 < 2" "1 / sqrt 5 < 2"
    by (simp_all add: field_simps)
  have z: "2 \<le> \<bar>(real_of_int 6 - 2) / population_std [1, 1, 1, 1, 6]\<bar>"
    by (simp add: pop)
  have "anomalies (detect [(0, 1), (1, 1), (2, 1), (3, 1), (4, 6)]) = []"
    using ne pos small
    by (simp add: detect_def Let_def series_mean_def smp [simplified] or_one_def series_std_def power2_eq_square)
  with pop smp ne z show ?thesis by blast
qed

text \<open>
  Claim C7 at a series of one day: the deviation computed is NaN, not 0; NaN is
  truthy, so it is not replaced by 1 and is returned as \<open>std\<close>, and the z-score of
  the day is NaN. No anomaly is reported.
\<close>

theorem single_point_std_is_nan:
  "series_std [c] = NaN \<and>
   anomalies_incidents [(d, c)] =
     Inr (Report [(d, c)] \<lparr>mean = Num (real_of_int c), std = NaN, anomalies = []\<rparr>)"
  by (simp add: anomalies_incidents_def fill_def date_range_def upto_rec1 detect_def series_mean_def
      series_std_def or_one_def Let_def)

subsection \<open>Forecast\<close>

lemma pow2_pos: "0 < pow2 k"
  by (simp add: pow2_def)

lemma round_half_even_nonneg: "0 \<le> y \<Longrightarrow> 0 \<le> round_half_even y"
proof -
  assume "0 \<le> y"
  then have "0 \<le> \<lfloor>y\<rfloor>" by simp
  then show ?thesis by (simp add: round_half_even_def Let_def)
qed

lemma round_half_even_nonpos: "y \<le> 0 \<Longrightarrow> round_half_even y \<le> 0"
proof (cases "y = 0")
  case True
  then show ?thesis by (simp add: round_half_even_def)
next
  case False
  assume "y \<le> 0"
  with False have "y < 0" by simp
  then have "\<lfloor>y\<rfloor> < 0" by (simp add: floor_less_iff)
  then have "\<lfloor>y\<rfloor> + 1 \<le> 0" "\<lfloor>y\<rfloor> \<le> 0" by linarith+
  then show ?thesis by (simp add: round_half_even_def Let_def)
qed

text \<open>Rounding to binary64 keeps zero and the sign.\<close>

lemma to_double_zero: "to_double 0 = 0"
  by (simp add: to_double_def round_half_even_def)

lemma to_double_nonneg: "0 \<le> x \<Longrightarrow> 0 \<le> to_double x"
  by (simp add: to_double_def Let_def round_half_even_nonneg pow2_pos less_imp_le)

lemma to_double_nonpos: "x \<le> 0 \<Longrightarrow> to_double x \<le> 0"
proof -
  assume x: "x \<le> 0"
  let ?u = "pow2 (max (bitlen \<lfloor>\<bar>x\<bar> * 2 ^ 1074\<rfloor> - 1075) (- 1022) - 52)"
  have u: "0 < ?u" by (rule pow2_pos)
  with x have "x / ?u \<le> 0" by (simp add: divide_le_0_iff)
  then have "round_half_even (x / ?u) \<le> 0" by (rule round_half_even_nonpos)
  then have "of_int (round_half_even (x / ?u)) * ?u \<le> 0"
    using u by (simp add: mult_le_0_iff)
  then show ?thesis by (simp add: to_double_def Let_def)
qed

text \<open>
  On a number of the binade \<open>[2\<^sup>k, 2\<^sup>k\<^sup>+\<^sup>1)\<close> the rounding is to the nearest multiple
  of \<open>2\<^sup>k\<^sup>-\<^sup>5\<^sup>2\<close>.
\<close>

lemma bitlen_eqI:
  assumes "2 ^ j \<le> m" and "m < 2 ^ Suc j"
  shows "bitlen m = int j + 1"
proof -
  from assms have pos: "0 < m"
    by (meson less_le_trans zero_less_numeral zero_less_power)
  have b: "2 ^ nat (bitlen m - 1) \<le> m" "m < 2 ^ nat (bitlen m)"
    using bitlen_bounds [OF pos] by simp_all
  have "(2::int) ^ j < 2 ^ nat (bitlen m)" using assms(1) b(2) by linarith
  then have 1: "j < nat (bitlen m)" by simp
  have "(2::int) ^ nat (bitlen m - 1) < 2 ^ Suc j" using assms(2) b(1) by linarith
  then have 2: "nat (bitlen m - 1) < Suc j" by (simp only: power_strict_increasing_iff one_less_numeral_iff semiring_norm)
  from 1 2 show ?thesis by linarith
qed

lemma pow2_times_power:
  assumes "0 \<le> k + int n"
  shows "pow2 k * 2 ^ n = 2 ^ nat (k + int n)"
proof (cases "0 \<le> k")
  case True
  then have "nat (k + int n) = nat k + n" by (simp add: nat_add_distrib)
  with True show ?thesis by (simp add: pow2_def power_add)
next
  case False
  then have "n = nat (k + int n) + nat (- k)" using assms by simp
  then have "(2::real) ^ n = 2 ^ nat (k + int n) * 2 ^ nat (- k)" by (metis power_add)
  with False show ?thesis by (simp add: pow2_def)
qed

lemma floor_binade:
  fixes y :: real
  assumes "2 ^ j \<le> y" and "y < 2 ^ Suc j"
  shows "bitlen \<lfloor>y\<rfloor> = int j + 1"
proof -
  from assms(1) have "of_int (2 ^ j) \<le> y" by simp
  then have m1: "2 ^ j \<le> \<lfloor>y\<rfloor>" by (simp only: le_floor_iff)
  from assms(2) have "y < of_int (2 ^ Suc j)" by simp
  then have m2: "\<lfloor>y\<rfloor> < 2 ^ Suc j" by (simp only: floor_less_iff)
  from m1 m2 show ?thesis by (rule bitlen_eqI)
qed

lemma exponent_binade:
  assumes lo: "pow2 k \<le> \<bar>x\<bar>" and hi: "\<bar>x\<bar> < pow2 (k + 1)" and k: "- int n + 52 \<le> k"
  shows "bitlen \<lfloor>\<bar>x\<bar> * 2 ^ n\<rfloor> - (int n + 1) = k"
proof -
  define j where "j = nat (k + int n)"
  have jk: "int j = k + int n" using k by (simp add: j_def)
  have p: "pow2 k * 2 ^ n = 2 ^ j"
    unfolding j_def using k by (intro pow2_times_power) simp
  have "nat (k + 1 + int n) = Suc j" using k by (simp add: j_def)
  then have p1: "pow2 (k + 1) * 2 ^ n = 2 ^ Suc j"
    using pow2_times_power [of "k + 1" n] k by simp
  have a: "(2::real) ^ j \<le> \<bar>x\<bar> * 2 ^ n"
    using lo p by (metis mult_right_mono zero_le_numeral zero_le_power)
  have b: "\<bar>x\<bar> * 2 ^ n < 2 ^ Suc j"
    using hi p1 by (metis mult_strict_right_mono zero_less_numeral zero_less_power)
  from a b have "bitlen \<lfloor>\<bar>x\<bar> * 2 ^ n\<rfloor> = int j + 1" by (rule floor_binade)
  with jk show ?thesis by simp
qed

lemma to_double_binade:
  assumes lo: "pow2 k \<le> \<bar>x\<bar>" and hi: "\<bar>x\<bar> < pow2 (k + 1)" and k: "- 1022 \<le> k"
  shows "to_double x = of_int (round_half_even (x / pow2 (k - 52))) * pow2 (k - 52)"
proof -
  from k have "- int 1074 + 52 \<le> k" by simp
  with lo hi have "bitlen \<lfloor>\<bar>x\<bar> * 2 ^ 1074\<rfloor> - (int 1074 + 1) = k"
    by (rule exponent_binade)
  then have "bitlen \<lfloor>\<bar>x\<bar> * 2 ^ 1074\<rfloor> - 1075 = k" by simp
  then have "max (bitlen \<lfloor>\<bar>x\<bar> * 2 ^ 1074\<rfloor> - 1075) (- 1022) = k" using k by simp
  then show ?thesis by (simp only: to_double_def Let_def)
qed

lemma py_round2_zero: "py_round2 0 = 0"
  by (simp add: py_round2_def round_half_even_def to_double_zero)

lemma py_round2_nonneg: "0 \<le> x \<Longrightarrow> 0 \<le> py_round2 x"
proof -
  assume "0 \<le> x"
  then have "0 \<le> round_half_even (x * 100)" by (simp add: round_half_even_nonneg)
  then have "0 \<le> real_of_int (round_half_even (x * 100)) / 100" by simp
  then show ?thesis unfolding py_round2_def by (rule to_double_nonneg)
qed

lemma py_round2_nonpos: "x < 0 \<Longrightarrow> py_round2 x \<le> 0"
proof -
  assume "x < 0"
  then have "round_half_even (x * 100) \<le> 0" by (simp add: round_half_even_nonpos)
  then have "real_of_int (round_half_even (x * 100)) / 100 \<le> 0" by simp
  then show ?thesis unfolding py_round2_def by (rule to_double_nonpos)
qed

text \<open>The code rounds the clamped value; clamping the rounded value gives the same.\<close>

lemma py_round2_max0: "py_round2 (max 0 x) = max 0 (py_round2 x)"
proof (cases "0 \<le> x")
  case True
  then show ?thesis using py_round2_nonneg [of x] by (simp add: max_def)
next
  case False
  then have "x < 0" by simp
  then show ?thesis using py_round2_nonpos [of x] by (auto simp add: max_def py_round2_zero)
qed

lemma sigma_t_list: "sigma_t n = sum_list (map real [0..<n])"
  by (simp add: sigma_t_def interv_sum_list_conv_sum_set_nat atLeast0LessThan)

lemma sigma_tt_list: "sigma_tt n = (\<Sum>x\<leftarrow>map real [0..<n]. x * x)"
  by (simp add: sigma_tt_def interv_sum_list_conv_sum_set_nat atLeast0LessThan comp_def
      power2_eq_square)

lemma sigma_y_list: "sigma_y y = sum_list y"
  by (simp add: sigma_y_def sum_list_sum_nth atLeast0LessThan)

lemma zip_index: "zip (map real [0..<length y]) y = map (\<lambda>t. (real t, y ! t)) [0..<length y]"
  by (rule nth_equalityI) simp_all

lemma sigma_ty_list: "sigma_ty y = (\<Sum>(a, b)\<leftarrow>zip (map real [0..<length y]) y. a * b)"
  by (simp add: zip_index sigma_ty_def interv_sum_list_conv_sum_set_nat atLeast0LessThan comp_def)

lemma sigma_t_closed: "2 * sigma_t n = real n * (real n - 1)"
  by (induction n) (simp_all add: sigma_t_def algebra_simps)

lemma sigma_tt_closed: "6 * sigma_tt n = (real n - 1) * real n * (2 * real n - 1)"
  by (induction n) (simp_all add: sigma_tt_def algebra_simps power2_eq_square)

lemma ols_denom_closed: "12 * ols_denom n = (real n)\<^sup>2 * (real n - 1) * (real n + 1)"
proof -
  have "12 * ols_denom n = 2 * real n * (6 * sigma_tt n) - 3 * (2 * sigma_t n)\<^sup>2"
    by (simp add: ols_denom_def algebra_simps power2_eq_square)
  also have "\<dots> = 2 * real n * ((real n - 1) * real n * (2 * real n - 1))
      - 3 * (real n * (real n - 1))\<^sup>2"
    by (simp only: sigma_t_closed sigma_tt_closed)
  also have "\<dots> = (real n)\<^sup>2 * (real n - 1) * (real n + 1)"
    by (simp add: algebra_simps power2_eq_square)
  finally show ?thesis .
qed

lemma ols_denom_zero_iff: "ols_denom n = 0 \<longleftrightarrow> n \<le> 1"
proof -
  have "ols_denom n = 0 \<longleftrightarrow> 12 * ols_denom n = 0" by simp
  also have "\<dots> \<longleftrightarrow> (real n)\<^sup>2 * (real n - 1) * (real n + 1) = 0"
    by (simp only: ols_denom_closed)
  also have "\<dots> \<longleftrightarrow> n = 0 \<or> real n = 1"
    by auto
  also have "\<dots> \<longleftrightarrow> n \<le> 1" by auto
  finally show ?thesis .
qed

text \<open>The fit never raises on a series with a value: every divisor is non-zero.\<close>

lemma ols_fit_sums:
  assumes "y \<noteq> []"
  shows "ols_fit y =
     Inr (if ols_denom (length y) = 0
          then (0, to_double (sigma_y y / real (length y)), ''naive_last'')
          else (to_double ((real (length y) * sigma_ty y - sigma_t (length y) * sigma_y y)
                           / ols_denom (length y)),
                to_double
                  (fsub (sigma_y y)
                     (fmul (to_double ((real (length y) * sigma_ty y
                                        - sigma_t (length y) * sigma_y y)
                                       / ols_denom (length y)))
                           (sigma_t (length y)))
                   / real (length y)),
                ''linear_trend''))"
  using assms
  unfolding ols_denom_def sigma_t_list sigma_tt_list sigma_y_list sigma_ty_list
  by (simp add: ols_fit_def py_div_def Let_def power2_eq_square)

lemma last_sorted_is_Max:
  assumes "xs \<noteq> []" and "sorted (map f xs)"
  shows "f (last xs) = Max (f ` set xs)"
proof -
  have "Max (f ` set xs) = f (last xs)"
  proof (rule Max_eqI)
    show "finite (f ` set xs)" by simp
    show "f (last xs) \<in> f ` set xs" using assms(1) by simp
    fix y assume "y \<in> f ` set xs"
    then obtain i where i: "i < length xs" and y: "y = f (xs ! i)"
      by (auto simp add: in_set_conv_nth)
    have "map f xs ! i \<le> map f xs ! (length xs - 1)"
      using assms i by (intro sorted_nth_mono) auto
    then show "y \<le> f (last xs)"
      using assms(1) i y by (simp add: last_conv_nth)
  qed
  then show ?thesis by simp
qed

lemma sort_key_nonempty: "rows \<noteq> [] \<Longrightarrow> sort_key f rows \<noteq> []"
  by (metis length_sort length_0_conv)

lemma last_date: "rows \<noteq> [] \<Longrightarrow> fst (last (sort_key fst rows)) = Max (fst ` set rows)"
proof -
  assume ne: "rows \<noteq> []"
  then have "sort_key fst rows \<noteq> []"
    by (rule sort_key_nonempty)
  moreover have "sorted (map fst (sort_key fst rows))"
    by (rule sorted_sort_key)
  ultimately have "fst (last (sort_key fst rows)) = Max (fst ` set (sort_key fst rows))"
    by (rule last_sorted_is_Max)
  then show ?thesis by simp
qed

lemma map_shift_upto: "map (\<lambda>i. a + i) [1..h] = [a + 1..a + h]"
  by (rule nth_equalityI) simp_all

lemma ols_fit_rows:
  assumes "rows \<noteq> []"
  shows "\<exists>slope intercept m.
           ols_fit (map (\<lambda>r. real_of_int (snd r)) (sort_key fst rows)) = Inr (slope, intercept, m)"
proof -
  from assms have "map (\<lambda>r. real_of_int (snd r)) (sort_key fst rows) \<noteq> []"
    by (simp add: sort_key_nonempty)
  then show ?thesis
    by (simp add: ols_fit_sums)
qed

lemma forecast_nonempty:
  assumes ne: "rows \<noteq> []"
    and fit: "ols_fit (map (\<lambda>r. real_of_int (snd r)) (sort_key fst rows)) = Inr (slope, intercept, m)"
  shows "forecast_incidents now days rows =
     Inr \<lparr>history = sort_key fst rows,
          forecast =
            map (\<lambda>i. (Max (fst ` set rows) + i,
                      max 0 (py_round2 (fadd (fmul slope (real_of_int (int (length rows) - 1 + i)))
                                             intercept))))
                [1..max 1 (min days 60)],
          fc_method = m\<rparr>"
  using ne fit by (simp add: forecast_incidents_def Let_def last_date py_round2_max0)

lemma forecast_empty:
  "forecast_incidents now days [] =
     Inr \<lparr>history = [],
          forecast = map (\<lambda>i. (now + (int i + 1), 5)) [0..<nat (max 1 (min days 60))],
          fc_method = ''naive''\<rparr>"
  by (simp add: forecast_incidents_def Let_def)

text \<open>
  The handler on the fifteen days with a horizon of four days. The sums are
  \<open>N = 15\<close>, \<open>\<Sigma>t = 105\<close>, \<open>\<Sigma>y = 18\<close>, \<open>\<Sigma>t\<^sup>2 = 1015\<close> and \<open>\<Sigma>ty = 133\<close>, so the
  denominator is 4200 and the exact slope is \<open>1/40\<close>. Over the real numbers the
  fourth prediction would be \<open>1.475\<close> and would round to \<open>1.48\<close>; the floats give a
  number below \<open>1.475\<close>, and the handler answers \<open>1.47\<close>.
\<close>

lemma fifteen_slope: "to_double (1 / 40) = 3602879701896397 / 144115188075855872"
proof -
  have "to_double (1 / 40) =
      of_int (round_half_even ((1 / 40) / pow2 (-6 - 52))) * pow2 (-6 - 52)"
    by (rule to_double_binade) (simp_all add: pow2_def)
  also have "\<dots> = 3602879701896397 / 144115188075855872"
    by (simp add: pow2_def round_half_even_def Let_def)
  finally show ?thesis .
qed

lemma fifteen_slope_sum_t: "to_double (378302368699121685 / 144115188075855872) = 21 / 8"
proof -
  have "to_double (378302368699121685 / 144115188075855872) =
      of_int (round_half_even ((378302368699121685 / 144115188075855872) / pow2 (1 - 52))) * pow2 (1 - 52)"
    by (rule to_double_binade) (simp_all add: pow2_def)
  also have "\<dots> = 21 / 8"
    by (simp add: pow2_def round_half_even_def Let_def)
  finally show ?thesis .
qed

lemma fifteen_difference: "to_double (123 / 8) = 123 / 8"
proof -
  have "to_double (123 / 8) =
      of_int (round_half_even ((123 / 8) / pow2 (3 - 52))) * pow2 (3 - 52)"
    by (rule to_double_binade) (simp_all add: pow2_def)
  also have "\<dots> = 123 / 8"
    by (simp add: pow2_def round_half_even_def Let_def)
  finally show ?thesis .
qed

lemma fifteen_intercept: "to_double (41 / 40) = 2308094809027379 / 2251799813685248"
proof -
  have "to_double (41 / 40) =
      of_int (round_half_even ((41 / 40) / pow2 (0 - 52))) * pow2 (0 - 52)"
    by (rule to_double_binade) (simp_all add: pow2_def)
  also have "\<dots> = 2308094809027379 / 2251799813685248"
    by (simp add: pow2_def round_half_even_def Let_def)
  finally show ?thesis .
qed

lemma fifteen_product_1: "to_double (54043195528445955 / 144115188075855872) = 3 / 8"
proof -
  have "to_double (54043195528445955 / 144115188075855872) =
      of_int (round_half_even ((54043195528445955 / 144115188075855872) / pow2 (-2 - 52))) * pow2 (-2 - 52)"
    by (rule to_double_binade) (simp_all add: pow2_def)
  also have "\<dots> = 3 / 8"
    by (simp add: pow2_def round_half_even_def Let_def)
  finally show ?thesis .
qed

lemma fifteen_prediction_1: "to_double (3152519739159347 / 2251799813685248) = 3152519739159347 / 2251799813685248"
proof -
  have "to_double (3152519739159347 / 2251799813685248) =
      of_int (round_half_even ((3152519739159347 / 2251799813685248) / pow2 (0 - 52))) * pow2 (0 - 52)"
    by (rule to_double_binade) (simp_all add: pow2_def)
  also have "\<dots> = 3152519739159347 / 2251799813685248"
    by (simp add: pow2_def round_half_even_def Let_def)
  finally show ?thesis .
qed

lemma fifteen_product_2: "to_double (3602879701896397 / 9007199254740992) = 3602879701896397 / 9007199254740992"
proof -
  have "to_double (3602879701896397 / 9007199254740992) =
      of_int (round_half_even ((3602879701896397 / 9007199254740992) / pow2 (-2 - 52))) * pow2 (-2 - 52)"
    by (rule to_double_binade) (simp_all add: pow2_def)
  also have "\<dots> = 3602879701896397 / 9007199254740992"
    by (simp add: pow2_def round_half_even_def Let_def)
  finally show ?thesis .
qed

lemma fifteen_prediction_2: "to_double (12835258938005913 / 9007199254740992) = 1604407367250739 / 1125899906842624"
proof -
  have "to_double (12835258938005913 / 9007199254740992) =
      of_int (round_half_even ((12835258938005913 / 9007199254740992) / pow2 (0 - 52))) * pow2 (0 - 52)"
    by (rule to_double_binade) (simp_all add: pow2_def)
  also have "\<dots> = 1604407367250739 / 1125899906842624"
    by (simp add: pow2_def round_half_even_def Let_def)
  finally show ?thesis .
qed

lemma fifteen_product_3: "to_double (61248954932238749 / 144115188075855872) = 1914029841632461 / 4503599627370496"
proof -
  have "to_double (61248954932238749 / 144115188075855872) =
      of_int (round_half_even ((61248954932238749 / 144115188075855872) / pow2 (-2 - 52))) * pow2 (-2 - 52)"
    by (rule to_double_binade) (simp_all add: pow2_def)
  also have "\<dots> = 1914029841632461 / 4503599627370496"
    by (simp add: pow2_def round_half_even_def Let_def)
  finally show ?thesis .
qed

lemma fifteen_prediction_3: "to_double (6530219459687219 / 4503599627370496) = 6530219459687219 / 4503599627370496"
proof -
  have "to_double (6530219459687219 / 4503599627370496) =
      of_int (round_half_even ((6530219459687219 / 4503599627370496) / pow2 (0 - 52))) * pow2 (0 - 52)"
    by (rule to_double_binade) (simp_all add: pow2_def)
  also have "\<dots> = 6530219459687219 / 4503599627370496"
    by (simp add: pow2_def round_half_even_def Let_def)
  finally show ?thesis .
qed

lemma fifteen_product_4: "to_double (32425917317067573 / 72057594037927936) = 8106479329266893 / 18014398509481984"
proof -
  have "to_double (32425917317067573 / 72057594037927936) =
      of_int (round_half_even ((32425917317067573 / 72057594037927936) / pow2 (-2 - 52))) * pow2 (-2 - 52)"
    by (rule to_double_binade) (simp_all add: pow2_def)
  also have "\<dots> = 8106479329266893 / 18014398509481984"
    by (simp add: pow2_def round_half_even_def Let_def)
  finally show ?thesis .
qed

lemma fifteen_prediction_4: "to_double (26571237801485925 / 18014398509481984) = 6642809450371481 / 4503599627370496"
proof -
  have "to_double (26571237801485925 / 18014398509481984) =
      of_int (round_half_even ((26571237801485925 / 18014398509481984) / pow2 (0 - 52))) * pow2 (0 - 52)"
    by (rule to_double_binade) (simp_all add: pow2_def)
  also have "\<dots> = 6642809450371481 / 4503599627370496"
    by (simp add: pow2_def round_half_even_def Let_def)
  finally show ?thesis .
qed

lemma fifteen_fit:
  "ols_fit (map (\<lambda>r. real_of_int (snd r)) (sort_key fst fifteen_days)) =
     Inr (3602879701896397 / 144115188075855872, 2308094809027379 / 2251799813685248, ''linear_trend'')"
  by (simp add: fifteen_days_def ols_fit_def Let_def upt_rec py_div_def fsub_def fmul_def
      fifteen_slope fifteen_slope_sum_t fifteen_difference fifteen_intercept)

lemma fifteen_days_nonempty: "fifteen_days \<noteq> []"
  by (simp add: fifteen_days_def)

lemma forecast_fifteen_days:
  "forecast_incidents now 4 fifteen_days =
     Inr \<lparr>history = fifteen_days,
          forecast = [(15, to_double (140 / 100)), (16, to_double (142 / 100)),
                      (17, to_double (145 / 100)), (18, to_double (147 / 100))],
          fc_method = ''linear_trend''\<rparr>"
proof -
  have pos: "0 \<le> to_double (140 / 100)" "0 \<le> to_double (142 / 100)"
    "0 \<le> to_double (145 / 100)" "0 \<le> to_double (147 / 100)"
    by (simp_all add: to_double_nonneg)
  show ?thesis
    unfolding forecast_nonempty [OF fifteen_days_nonempty fifteen_fit]
    using pos
    by (simp add: fifteen_days_def upto_rec1 fadd_def fmul_def py_round2_def round_half_even_def
        Let_def fifteen_product_1 fifteen_prediction_1 fifteen_product_2 fifteen_prediction_2 fifteen_product_3 fifteen_prediction_3 fifteen_product_4 fifteen_prediction_4)
qed

text \<open>
  Claim C9: for every integer \<open>days\<close> the handler does not raise and its forecast
  has \<open>max(1, min(days, 60))\<close> points, hence between 1 and 60, whatever the rows are.
\<close>

theorem forecast_horizon_clamped:
  "\<exists>r. forecast_incidents now days rows = Inr r \<and>
       length (forecast r) = nat (max 1 (min days 60)) \<and>
       1 \<le> length (forecast r) \<and> length (forecast r) \<le> 60"
proof -
  have bounds: "1 \<le> nat (max 1 (min days 60))" "nat (max 1 (min days 60)) \<le> 60"
    by linarith+
  show ?thesis
  proof (cases "rows = []")
    case True
    with bounds show ?thesis by (simp add: forecast_empty)
  next
    case False
    then obtain slope intercept m where
      "ols_fit (map (\<lambda>r. real_of_int (snd r)) (sort_key fst rows)) = Inr (slope, intercept, m)"
      using ols_fit_rows by blast
    with False bounds show ?thesis by (simp add: forecast_nonempty)
  qed
qed

text \<open>
  Claim C3: for rows that are not empty and a horizon \<open>h\<close> from 1 to 60, the fit
  and the handler succeed and the forecast has \<open>h\<close> points; the point for day \<open>i\<close>
  is dated \<open>i\<close> days after the last observed date and predicts
  \<open>max(0, round(slope * t\<^sub>i + intercept, 2))\<close> with \<open>t\<^sub>i = (N - 1) + i\<close>, product, sum
  and rounding being those of floats; no prediction is negative; the dates are
  the \<open>h\<close> consecutive days after the last observed date.
\<close>

theorem forecast_points:
  "rows \<noteq> [] \<and> 1 \<le> h \<and> h \<le> 60 \<longrightarrow>
     (\<exists>slope intercept m r.
        ols_fit (map (\<lambda>r. real_of_int (snd r)) (sort_key fst rows)) = Inr (slope, intercept, m) \<and>
        forecast_incidents now h rows = Inr r \<and>
        length (forecast r) = nat h \<and>
        (\<forall>i. 1 \<le> i \<and> i \<le> h \<longrightarrow>
           forecast r ! nat (i - 1) =
             (Max (fst ` set rows) + i,
              max 0 (py_round2 (fadd (fmul slope (real_of_int (int (length rows) - 1 + i)))
                                   intercept)))) \<and>
        (\<forall>p \<in> set (forecast r). 0 \<le> snd p) \<and>
        map fst (forecast r) = [Max (fst ` set rows) + 1..Max (fst ` set rows) + h])"
proof (intro impI, elim conjE)
  assume ne: "rows \<noteq> []" and h: "1 \<le> h" "h \<le> 60"
  obtain slope intercept m where
    fit: "ols_fit (map (\<lambda>r. real_of_int (snd r)) (sort_key fst rows)) = Inr (slope, intercept, m)"
    using ols_fit_rows [OF ne] by blast
  let ?g = "\<lambda>i. (Max (fst ` set rows) + i,
               max 0 (py_round2 (fadd (fmul slope (real_of_int (int (length rows) - 1 + i)))
                                   intercept)))"
  define r where "r = \<lparr>history = sort_key fst rows, forecast = map ?g [1..h], fc_method = m\<rparr>"
  from h have "max 1 (min h 60) = h" by simp
  with forecast_nonempty [OF ne fit, of now h]
  have run: "forecast_incidents now h rows = Inr r"
    by (simp add: r_def)
  have fc: "forecast r = map ?g [1..h]"
    by (simp add: r_def)
  have len: "length (forecast r) = nat h"
    unfolding fc by simp
  have nth: "forecast r ! nat (i - 1) = ?g i" if "1 \<le> i" and "i \<le> h" for i
    unfolding fc using that by simp
  have nonneg: "0 \<le> snd p" if "p \<in> set (forecast r)" for p
    using that unfolding fc by auto
  have dates: "map fst (forecast r) = [Max (fst ` set rows) + 1..Max (fst ` set rows) + h]"
    unfolding fc by (simp add: comp_def map_shift_upto)
  from fit run len nth nonneg dates
  show "\<exists>slope intercept m r.
        ols_fit (map (\<lambda>r. real_of_int (snd r)) (sort_key fst rows)) = Inr (slope, intercept, m) \<and>
        forecast_incidents now h rows = Inr r \<and>
        length (forecast r) = nat h \<and>
        (\<forall>i. 1 \<le> i \<and> i \<le> h \<longrightarrow>
           forecast r ! nat (i - 1) =
             (Max (fst ` set rows) + i,
              max 0 (py_round2 (fadd (fmul slope (real_of_int (int (length rows) - 1 + i)))
                                   intercept)))) \<and>
        (\<forall>p \<in> set (forecast r). 0 \<le> snd p) \<and>
        map fst (forecast r) = [Max (fst ` set rows) + 1..Max (fst ` set rows) + h]"
    by blast
qed

text \<open>
  Witness for C3: the fifteen days with horizon 4; the fourth point is dated day 18
  and predicts the float nearest to \<open>1.47\<close>.
\<close>

theorem forecast_points_witness:
  "fifteen_days \<noteq> [] \<and> (1::int) \<le> 4 \<and> (4::int) \<le> 60 \<and>
   (\<exists>r. forecast_incidents 100 4 fifteen_days = Inr r \<and>
        length (forecast r) = 4 \<and>
        map fst (forecast r) = [15, 16, 17, 18] \<and>
        forecast r ! 3 = (18, to_double (147 / 100)))"
proof -
  from forecast_points [of fifteen_days 4 100] fifteen_days_nonempty
  obtain slope intercept m r where
    fit: "ols_fit (map (\<lambda>r. real_of_int (snd r)) (sort_key fst fifteen_days))
            = Inr (slope, intercept, m)"
    and run: "forecast_incidents 100 4 fifteen_days = Inr r"
    and len: "length (forecast r) = nat 4"
    and nth: "\<forall>i. 1 \<le> i \<and> i \<le> 4 \<longrightarrow>
        forecast r ! nat (i - 1) =
          (Max (fst ` set fifteen_days) + i,
           max 0 (py_round2 (fadd (fmul slope (real_of_int (int (length fifteen_days) - 1 + i)))
                                  intercept)))"
    and dates: "map fst (forecast r) =
        [Max (fst ` set fifteen_days) + 1..Max (fst ` set fifteen_days) + 4]"
    by auto
  from fit have si: "slope = 3602879701896397 / 144115188075855872" "intercept = 2308094809027379 / 2251799813685248"
    by (simp_all add: fifteen_fit)
  have last_day: "Max (fst ` set fifteen_days) = 14" and n: "length fifteen_days = 15"
    by (simp_all add: fifteen_days_def)
  have "[15..18] = [15, 16, 17, 18::int]"
    by (simp add: upto_rec1)
  with dates have d: "map fst (forecast r) = [15, 16, 17, 18]"
    by (simp add: last_day)
  have pos: "0 \<le> to_double (147 / 100)"
    by (simp add: to_double_nonneg)
  have v: "forecast r ! 3 = (18, to_double (147 / 100))"
    using nth [THEN spec, of 4] pos
    by (simp add: si last_day n fadd_def fmul_def py_round2_def round_half_even_def Let_def
        fifteen_product_4 fifteen_prediction_4 eval_nat_numeral)
  from run len d v fifteen_days_nonempty show ?thesis by auto
qed

text \<open>
  Claim C4: the handler never raises, whatever the rows are, and has three
  branches. Without rows it answers the flat forecast of 5 per day from the day
  after \<open>now\<close>, with the method \<open>naive\<close>. With rows and a denominator of 0 the fit is
  slope 0 and the mean of the counts, with the method \<open>naive_last\<close>. With rows and
  another denominator the fit is the closed form of least squares, with the method
  \<open>linear_trend\<close>. Quotients, the product of slope and \<open>\<Sigma>t\<close> and its difference from
  \<open>\<Sigma>y\<close> are those of floats. The denominator is 0 exactly when there is at most one
  row.
\<close>

theorem forecast_policy_branches:
  "(\<exists>r. forecast_incidents now days rows = Inr r) \<and>
   (rows = [] \<longrightarrow>
      (\<exists>r. forecast_incidents now days rows = Inr r \<and>
           fc_method r = ''naive'' \<and> history r = [] \<and>
           map fst (forecast r) = [now + 1..now + max 1 (min days 60)] \<and>
           (\<forall>p \<in> set (forecast r). snd p = 5))) \<and>
   (rows \<noteq> [] \<and> ols_denom (length rows) = 0 \<longrightarrow>
      ols_fit (map (\<lambda>r. real_of_int (snd r)) (sort_key fst rows)) =
        Inr (0,
             to_double (sigma_y (map (\<lambda>r. real_of_int (snd r)) (sort_key fst rows))
                        / real (length rows)),
             ''naive_last'') \<and>
      (\<exists>r. forecast_incidents now days rows = Inr r \<and> fc_method r = ''naive_last'')) \<and>
   (rows \<noteq> [] \<and> ols_denom (length rows) \<noteq> 0 \<longrightarrow>
      (\<exists>slope.
         slope = to_double
                   ((real (length rows) * sigma_ty (map (\<lambda>r. real_of_int (snd r)) (sort_key fst rows))
                     - sigma_t (length rows)
                       * sigma_y (map (\<lambda>r. real_of_int (snd r)) (sort_key fst rows)))
                    / ols_denom (length rows)) \<and>
         ols_fit (map (\<lambda>r. real_of_int (snd r)) (sort_key fst rows)) =
           Inr (slope,
                to_double
                  (fsub (sigma_y (map (\<lambda>r. real_of_int (snd r)) (sort_key fst rows)))
                        (fmul slope (sigma_t (length rows)))
                   / real (length rows)),
                ''linear_trend'')) \<and>
      (\<exists>r. forecast_incidents now days rows = Inr r \<and> fc_method r = ''linear_trend'')) \<and>
   (ols_denom (length rows) = 0 \<longleftrightarrow> length rows \<le> 1)"
proof -
  let ?y = "map (\<lambda>r. real_of_int (snd r)) (sort_key fst rows)"
  let ?s = "to_double ((real (length rows) * sigma_ty ?y - sigma_t (length rows) * sigma_y ?y)
                       / ols_denom (length rows))"
  have total: "\<exists>r. forecast_incidents now days rows = Inr r"
  proof (cases "rows = []")
    case True
    then show ?thesis by (simp add: forecast_empty)
  next
    case False
    then obtain slope intercept m where "ols_fit ?y = Inr (slope, intercept, m)"
      using ols_fit_rows by blast
    with False show ?thesis by (simp add: forecast_nonempty)
  qed
  have empty: "\<exists>r. forecast_incidents now days rows = Inr r \<and>
           fc_method r = ''naive'' \<and> history r = [] \<and>
           map fst (forecast r) = [now + 1..now + max 1 (min days 60)] \<and>
           (\<forall>p \<in> set (forecast r). snd p = 5)"
    if "rows = []"
  proof -
    have "map (\<lambda>i. now + (int i + 1)) [0..<nat (max 1 (min days 60))]
        = [now + 1..now + max 1 (min days 60)]"
      by (rule nth_equalityI) auto
    with that show ?thesis
      by (auto simp add: forecast_empty comp_def)
  qed
  have flat: "ols_fit ?y = Inr (0, to_double (sigma_y ?y / real (length rows)), ''naive_last'') \<and>
      (\<exists>r. forecast_incidents now days rows = Inr r \<and> fc_method r = ''naive_last'')"
    if ne: "rows \<noteq> []" and z: "ols_denom (length rows) = 0"
  proof -
    from ne have "?y \<noteq> []" by (simp add: sort_key_nonempty)
    with z have fit: "ols_fit ?y =
        Inr (0, to_double (sigma_y ?y / real (length rows)), ''naive_last'')"
      by (simp add: ols_fit_sums)
    with ne show ?thesis by (simp add: forecast_nonempty)
  qed
  have trend: "\<exists>slope. slope = ?s \<and>
         ols_fit ?y =
           Inr (slope,
                to_double (fsub (sigma_y ?y) (fmul slope (sigma_t (length rows)))
                           / real (length rows)),
                ''linear_trend'')"
     and trend_method:
       "\<exists>r. forecast_incidents now days rows = Inr r \<and> fc_method r = ''linear_trend''"
    if ne: "rows \<noteq> []" and nz: "ols_denom (length rows) \<noteq> 0"
  proof -
    from ne have "?y \<noteq> []" by (simp add: sort_key_nonempty)
    with nz have fit: "ols_fit ?y =
       Inr (?s,
            to_double (fsub (sigma_y ?y) (fmul ?s (sigma_t (length rows))) / real (length rows)),
            ''linear_trend'')"
      by (simp add: ols_fit_sums)
    then show "\<exists>slope. slope = ?s \<and>
         ols_fit ?y =
           Inr (slope,
                to_double (fsub (sigma_y ?y) (fmul slope (sigma_t (length rows)))
                           / real (length rows)),
                ''linear_trend'')"
      by simp
    from ne fit
    show "\<exists>r. forecast_incidents now days rows = Inr r \<and> fc_method r = ''linear_trend''"
      by (simp add: forecast_nonempty)
  qed
  from total empty flat trend trend_method ols_denom_zero_iff [of "length rows"]
  show ?thesis by blast
qed

text \<open>Witness for C4: no row, one row, and three rows.\<close>

theorem forecast_policy_branches_witness:
  "(\<exists>r. forecast_incidents 100 3 [] = Inr r \<and> fc_method r = ''naive'') \<and>
   ols_denom (length [(1::int, 5::int)]) = 0 \<and>
   (\<exists>r. forecast_incidents 100 3 [(1, 5)] = Inr r \<and> fc_method r = ''naive_last'') \<and>
   ols_denom (length [(1::int, 5::int), (2, 5), (3, 5)]) \<noteq> 0 \<and>
   (\<exists>r. forecast_incidents 100 3 [(1, 5), (2, 5), (3, 5)] = Inr r \<and>
        fc_method r = ''linear_trend'')"
proof -
  have one: "ols_denom (length [(1::int, 5::int)]) = 0"
    by (simp add: ols_denom_zero_iff)
  have three: "ols_denom (length [(1::int, 5::int), (2, 5), (3, 5)]) \<noteq> 0"
    by (simp add: ols_denom_zero_iff)
  have a: "\<exists>r. forecast_incidents 100 3 [] = Inr r \<and> fc_method r = ''naive''"
    using forecast_policy_branches [of 100 3 "[]"] by blast
  have b: "\<exists>r. forecast_incidents 100 3 [(1, 5)] = Inr r \<and> fc_method r = ''naive_last''"
    using one forecast_policy_branches [of 100 3 "[(1, 5)]"] by blast
  have c: "\<exists>r. forecast_incidents 100 3 [(1, 5), (2, 5), (3, 5)] = Inr r \<and>
        fc_method r = ''linear_trend''"
    using three forecast_policy_branches [of 100 3 "[(1, 5), (2, 5), (3, 5)]"] by blast
  from one three a b c show ?thesis by blast
qed

end
